theory Spec2Isabelle
  imports Complex_Main
begin

section \<open>Feed Loader: the service module with \<open>getBonuses\<close>\<close>

subsection \<open>Data model\<close>

text \<open>
  The raw records of the rewards API (interfaces \<open>User\<close> and \<open>BonusResult\<close>) and the
  flat records handed to the ticker (interfaces \<open>Person\<close> and \<open>Recognition\<close>). Several
  field names occur in more than one interface, so they are written qualified
  (\<open>User.email\<close>, \<open>Person.email\<close>). JavaScript strings are modelled as \<open>string\<close>;
  the loader only copies them and compares one of them with the literal \<open>"BD"\<close>.
  The \<open>number\<close> field \<open>amount\<close> is only copied; it is modelled as an integer.
\<close>

record custom_properties =
  department :: string
  location :: string
  role :: string
  employment_status :: "string option"

record User =
  display_name :: string
  email :: string
  country :: string
  custom_properties :: custom_properties
  manager_email :: string
  profile_pic_url :: string

record BonusResult =
  amount :: int
  giver :: User
  receiver :: User
  reason :: string
  reason_decoded :: string
  created_at :: string

record Person =
  name :: string
  email :: string
  department :: string
  profile_pic_url :: string

record Recognition =
  amount :: int
  reason_decoded :: string
  giver :: Person
  receiver :: Person

text \<open>The body of one page response: \<open>{ success: boolean; result: BonusResult[] }\<close>.\<close>

record responseData =
  success :: bool
  result :: "BonusResult list"

text \<open>
  What a call of \<open>getBonuses\<close> can throw: its own \<open>new Error("failed to fetch bonuses")\<close>,
  or the rejection of the HTTP client inside \<open>listBonuses\<close>, which is passed on unchanged.
\<close>

datatype error = Error string | RequestRejected

subsection \<open>Pagination\<close>

text \<open>
  \<open>listBonuses\<close> is the remote call. Within one run the start time, the limit (100) and
  the credential are fixed and only \<open>skip\<close> varies, so the remote side is a function from
  \<open>skip\<close> to either a rejection or a response body.

  \<open>fetch_loop\<close> is the \<open>while (true)\<close> loop of \<open>getBonuses\<close>. Its state is the
  variable \<open>skip\<close>, the array \<open>results\<close> and the list of \<open>skip\<close> values requested so far
  (the lines \<open>fetching with skip ...\<close> that the loop logs, one per request). The loop has no
  bound, so the model is a partial function: \<open>None\<close> is a run that never returns.
\<close>

partial_function (option) fetch_loop ::
  "(nat \<Rightarrow> error + responseData) \<Rightarrow> nat \<Rightarrow> BonusResult list \<Rightarrow> nat list
     \<Rightarrow> (nat list \<times> (error + BonusResult list)) option"
where
  "fetch_loop listBonuses skip results requested =
     (let requested = requested @ [skip] in
      case listBonuses skip of
        Inl e \<Rightarrow> Some (requested, Inl e)
      | Inr responseData \<Rightarrow>
          if \<not> success responseData then
            Some (requested, Inl (Error ''failed to fetch bonuses''))
          else
            let data = result responseData in
            if length data > 0 then
              fetch_loop listBonuses (skip + 100) (results @ data) requested
            else Some (requested, Inr results))"

subsection \<open>Filter and reshape\<close>

definition reshape :: "BonusResult \<Rightarrow> Recognition" where
  "reshape b =
     (let amount = BonusResult.amount b; giver = BonusResult.giver b;
          receiver = BonusResult.receiver b;
          reason_decoded = BonusResult.reason_decoded b
      in \<lparr> amount = amount,
           reason_decoded = reason_decoded,
           giver = \<lparr> name = display_name giver,
                      email = User.email giver,
                      department = custom_properties.department (custom_properties giver),
                      profile_pic_url = User.profile_pic_url giver \<rparr>,
           receiver = \<lparr> name = display_name receiver,
                         email = User.email receiver,
                         department =
                           custom_properties.department (custom_properties receiver),
                         profile_pic_url = User.profile_pic_url receiver \<rparr> \<rparr>)"

text \<open>The \<open>return results.filter(...).map(...)\<close> at the end of \<open>getBonuses\<close>.\<close>

definition filter_reshape :: "BonusResult list \<Rightarrow> Recognition list" where
  "filter_reshape results =
     map reshape (filter (\<lambda>b. country (BonusResult.receiver b) = ''BD'') results)"

text \<open>
  The whole of \<open>getBonuses\<close>: the loop from \<open>skip = 0\<close> with an empty \<open>results\<close>, then
  the filter and the reshaping. An error of the loop is the error of the call.
\<close>

definition getBonuses ::
  "(nat \<Rightarrow> error + responseData) \<Rightarrow> (nat list \<times> (error + Recognition list)) option"
where
  "getBonuses listBonuses =
     (case fetch_loop listBonuses 0 [] [] of
        None \<Rightarrow> None
      | Some (requested, Inl e) \<Rightarrow> Some (requested, Inl e)
      | Some (requested, Inr results) \<Rightarrow> Some (requested, Inr (filter_reshape results)))"

section \<open>Ticker Controller: the display list\<close>

text \<open>
  \<open>Array.prototype.slice(start, end)\<close> for indices that are natural numbers: the elements
  from \<open>start\<close> up to, not including, \<open>end\<close>, both cut at the length of the array.
\<close>

definition slice :: "nat \<Rightarrow> nat \<Rightarrow> 'a list \<Rightarrow> 'a list" where
  "slice start end xs = drop start (take end xs)"

definition duplicateCount :: "'a list \<Rightarrow> nat" where
  "duplicateCount recognitions = min 3 (length recognitions)"

definition displayRecognitions :: "'a list \<Rightarrow> 'a list" where
  "displayRecognitions recognitions =
     recognitions @ slice 0 (duplicateCount recognitions) recognitions"

section \<open>Ticker Controller: the animation\<close>

text \<open>
  The component keeps three pieces of React state (\<open>scrollPosition\<close>, \<open>containerHeight\<close>,
  \<open>contentHeight\<close>) and two refs (\<open>animationRef\<close>, \<open>lastTimeRef\<close>). The browser side
  of the animation is the list of
  animation frame callbacks that are scheduled and the next handle that
  \<open>requestAnimationFrame\<close> hands out. A scheduled callback is the function \<open>animate\<close>
  together with the \<open>speed\<close> and \<open>contentHeight\<close> its closure captured. \<open>cleanup\<close> records
  whether the last run of the animation effect returned its cleanup function.
\<close>

text \<open>
  JavaScript numbers are double precision numbers. A number of the model is the real value
  of a finite double: the two zeros are one value, and NaN and the infinities are left out.
  Comparisons of doubles are the comparisons of their values. The four arithmetic
  operations that \<open>animate\<close> uses round their results. They are built-ins of the language
  and are parameters of the model, so that no definition and no proof below depends on how
  a result is rounded.
\<close>

record arith =
  fsub :: "real \<Rightarrow> real \<Rightarrow> real"
  fdiv :: "real \<Rightarrow> real \<Rightarrow> real"
  fmul :: "real \<Rightarrow> real \<Rightarrow> real"
  fadd :: "real \<Rightarrow> real \<Rightarrow> real"

record callback =
  handle :: nat
  cb_speed :: real
  cb_contentHeight :: real

record ticker =
  scrollPosition :: real
  containerHeight :: real
  contentHeight :: real
  animationRef :: "nat option"
  lastTimeRef :: "real option"
  frameCallbacks :: "callback list"
  nextHandle :: nat
  cleanup :: bool

text \<open>What \<open>updateDimensions\<close> reads from the element behind \<open>containerRef\<close>.\<close>

record element =
  clientHeight :: real
  scrollHeight :: real

definition requestAnimationFrame :: "real \<Rightarrow> real \<Rightarrow> ticker \<Rightarrow> nat \<times> ticker" where
  "requestAnimationFrame speed ch t =
     (nextHandle t,
      t\<lparr> frameCallbacks :=
            frameCallbacks t @
              [\<lparr> handle = nextHandle t, cb_speed = speed, cb_contentHeight = ch \<rparr>],
          nextHandle := nextHandle t + 1 \<rparr>)"

definition cancelAnimationFrame :: "nat \<Rightarrow> ticker \<Rightarrow> ticker" where
  "cancelAnimationFrame h t =
     t\<lparr> frameCallbacks := filter (\<lambda>c. handle c \<noteq> h) (frameCallbacks t) \<rparr>"

text \<open>
  The frame callback \<open>animate\<close>. The test \<open>!lastTimeRef.current\<close> holds for \<open>undefined\<close>
  and for the number 0; in both cases the reference becomes the current timestamp, so that
  \<open>delta\<close> is the timestamp minus itself. The updater given to \<open>setScrollPosition\<close> tests
  the previous position.
\<close>

definition animate :: "arith \<Rightarrow> real \<Rightarrow> real \<Rightarrow> real \<Rightarrow> ticker \<Rightarrow> ticker" where
  "animate ar speed ch timestamp t =
     (let lastTime = (case lastTimeRef t of
                        None \<Rightarrow> timestamp
                      | Some l \<Rightarrow> if l = 0 then timestamp else l);
          delta = fsub ar timestamp lastTime;
          pixelsToScroll = fmul ar (fdiv ar speed 1000) delta;
          prevPosition = scrollPosition t;
          t1 = t\<lparr> scrollPosition :=
                    (if prevPosition \<ge> ch then 0 else fadd ar prevPosition pixelsToScroll),
                  lastTimeRef := Some timestamp \<rparr>;
          (h, t2) = requestAnimationFrame speed ch t1
      in t2\<lparr> animationRef := Some h \<rparr>)"

text \<open>
  The first effect and the resize listener: \<open>updateDimensions\<close> stores the two measured
  heights when the ref holds an element.
\<close>

definition updateDimensions :: "element option \<Rightarrow> ticker \<Rightarrow> ticker" where
  "updateDimensions containerRef t =
     (case containerRef of
        None \<Rightarrow> t
      | Some el \<Rightarrow> t\<lparr> containerHeight := clientHeight el, contentHeight := scrollHeight el \<rparr>)"

text \<open>
  The animation effect: its body, and the cleanup function it returns when it has started
  the animation. The handle test \<open>if (animationRef.current)\<close> fails for \<open>undefined\<close> and 0.
\<close>

definition animationEffect :: "element option \<Rightarrow> real \<Rightarrow> ticker \<Rightarrow> ticker" where
  "animationEffect containerRef speed t =
     (if containerRef = None \<or> contentHeight t \<le> containerHeight t then
        t\<lparr> cleanup := False \<rparr>
      else
        let (h, t1) = requestAnimationFrame speed (contentHeight t) t
        in t1\<lparr> animationRef := Some h, cleanup := True \<rparr>)"

definition cleanupAnimation :: "ticker \<Rightarrow> ticker" where
  "cleanupAnimation t =
     (if cleanup t then
        (case animationRef t of
           None \<Rightarrow> t
         | Some h \<Rightarrow> if h = 0 then t else cancelAnimationFrame h t)
      else t)"

text \<open>
  The browser presenting a frame: the callbacks scheduled so far are taken off the list and
  run with the frame's timestamp; what they schedule waits for the next frame.
\<close>

definition frame :: "arith \<Rightarrow> real \<Rightarrow> ticker \<Rightarrow> ticker" where
  "frame ar timestamp t =
     fold (\<lambda>c. animate ar (cb_speed c) (cb_contentHeight c) timestamp)
       (frameCallbacks t) (t\<lparr> frameCallbacks := [] \<rparr>)"

text \<open>
  The events of a mounted ticker. \<open>Measure\<close> is a run of \<open>updateDimensions\<close> (the
  \<open>recognitions\<close> prop changed, or the window was resized); React then re-renders, and
  re-runs the animation effect (cleanup first) only when one of its dependencies
  \<open>contentHeight\<close>, \<open>containerHeight\<close> changed. The \<open>speed\<close> prop is fixed during a run.
  \<open>Frame\<close> is the browser presenting a frame.
\<close>

datatype event = Measure "element option" | Frame real

definition remeasure :: "real \<Rightarrow> element option \<Rightarrow> ticker \<Rightarrow> ticker" where
  "remeasure speed containerRef t =
     (let t1 = updateDimensions containerRef t in
      if contentHeight t1 = contentHeight t \<and> containerHeight t1 = containerHeight t
      then t1
      else animationEffect containerRef speed (cleanupAnimation t1))"

definition step :: "arith \<Rightarrow> real \<Rightarrow> event \<Rightarrow> ticker \<Rightarrow> ticker" where
  "step ar speed e t =
     (case e of
        Measure containerRef \<Rightarrow> remeasure speed containerRef t
      | Frame timestamp \<Rightarrow> frame ar timestamp t)"

definition run :: "arith \<Rightarrow> real \<Rightarrow> event list \<Rightarrow> ticker \<Rightarrow> ticker" where
  "run ar speed evs t = fold (step ar speed) evs t"

text \<open>
  Mounting: the state starts from its \<open>useState\<close> and \<open>useRef\<close> values, the animation
  effect runs once on the heights 0 and 0, and the heights measured by the first effect
  arrive with the next render.
\<close>

definition initial :: ticker where
  "initial =
     \<lparr> scrollPosition = 0, containerHeight = 0, contentHeight = 0, animationRef = None,
       lastTimeRef = None, frameCallbacks = [], nextHandle = 1, cleanup = False \<rparr>"

definition mount :: "element option \<Rightarrow> real \<Rightarrow> ticker" where
  "mount containerRef speed =
     remeasure speed containerRef (animationEffect containerRef speed initial)"

text \<open>
  The inline style of the scrolled element. Its transform is the string
  \<open>translateY(-${scrollPosition}px)\<close>; the model keeps the number that is put into the
  string after the minus sign.
\<close>

record style =
  translateY_minus :: real
  transition :: string

definition render :: "ticker \<Rightarrow> style" where
  "render t =
     \<lparr> translateY_minus = scrollPosition t,
       transition = (if scrollPosition t = 0 then ''none'' else ''transform 100ms linear'') \<rparr>"

section \<open>Card renderer: the avatar fallback\<close>

text \<open>
  \<open>String.prototype.split\<close> with a separator of one character: the pieces between the
  occurrences of the separator, empty pieces included; the empty string gives one empty
  piece.
\<close>

fun split_str :: "'a \<Rightarrow> 'a list \<Rightarrow> 'a list list" where
  "split_str sep [] = [[]]"
| "split_str sep (c # cs) =
     (if c = sep then [] # split_str sep cs
      else (case split_str sep cs of
              w # ws \<Rightarrow> (c # w) # ws
            | [] \<Rightarrow> [[c]]))"

text \<open>\<open>n[0]\<close>: the first character, or \<open>undefined\<close> (here \<open>None\<close>) for the empty string.\<close>

definition first_char :: "'a list \<Rightarrow> 'a option" where
  "first_char n = (case n of [] \<Rightarrow> None | c # _ \<Rightarrow> Some c)"

text \<open>
  \<open>Array.prototype.join\<close> on an array of one-character strings and \<open>undefined\<close>:
  an \<open>undefined\<close> element contributes the empty string.
\<close>

fun join_str :: "'a list \<Rightarrow> 'a option list \<Rightarrow> 'a list" where
  "join_str sep [] = []"
| "join_str sep [x] = (case x of None \<Rightarrow> [] | Some c \<Rightarrow> [c])"
| "join_str sep (x # y # zs) =
     (case x of None \<Rightarrow> [] | Some c \<Rightarrow> [c]) @ sep @ join_str sep (y # zs)"

text \<open>
  \<open>String.prototype.substring(start, end)\<close> for natural numbers: both are cut at the
  length, and the smaller one is the start.
\<close>

definition substring :: "nat \<Rightarrow> nat \<Rightarrow> 'a list \<Rightarrow> 'a list" where
  "substring start end s =
     (let a = min start (length s); b = min end (length s)
      in drop (min a b) (take (max a b) s))"

text \<open>
  \<open>getInitials\<close>. \<open>toUpperCase\<close> is a built-in of the language; it is a parameter here,
  and nothing below depends on what it does to a string.
\<close>

definition getInitials :: "(string \<Rightarrow> string) \<Rightarrow> string \<Rightarrow> string" where
  "getInitials toUpperCase name' =
     substring 0 2
       (toUpperCase (join_str [] (map (\<lambda>n. first_char n) (split_str CHR '' '' name'))))"

section \<open>Example data\<close>

definition example_user :: "string \<Rightarrow> string \<Rightarrow> User" where
  "example_user n c =
     \<lparr> display_name = n, User.email = n @ ''@example.com'', country = c,
       custom_properties =
         \<lparr> custom_properties.department = ''Engineering'', location = ''Dhaka'',
           role = ''Engineer'', employment_status = None \<rparr>,
       manager_email = ''lead@example.com'',
       User.profile_pic_url = ''https://example.com/'' @ n @ ''.png'' \<rparr>"

definition example_bonus :: "int \<Rightarrow> string \<Rightarrow> string \<Rightarrow> BonusResult" where
  "example_bonus a g c =
     \<lparr> BonusResult.amount = a, BonusResult.giver = example_user g ''US'',
       BonusResult.receiver = example_user ''rahim'' c, reason = ''+'' @ g,
       BonusResult.reason_decoded = ''thanks'', created_at = ''2025-01-01T00:00:00Z'' \<rparr>"

text \<open>Four pages of 100, 100, 37 and 0 records.\<close>

definition example_api :: "nat \<Rightarrow> error + responseData" where
  "example_api skip =
     Inr \<lparr> success = True,
           result = (if skip = 0 then replicate 100 (example_bonus 5 ''a'' ''BD'')
                     else if skip = 100 then replicate 100 (example_bonus 6 ''b'' ''US'')
                     else if skip = 200 then replicate 37 (example_bonus 7 ''c'' ''BD'')
                     else []) \<rparr>"

text \<open>A remote side whose pages are never empty.\<close>

definition endless_api :: "nat \<Rightarrow> error + responseData" where
  "endless_api skip = Inr \<lparr> success = True, result = [example_bonus 1 ''a'' ''BD''] \<rparr>"

text \<open>Two short pages with records of both kinds, then the empty page.\<close>

definition small_api :: "nat \<Rightarrow> error + responseData" where
  "small_api skip =
     Inr \<lparr> success = True,
           result = (if skip = 0
                     then [example_bonus 5 ''a'' ''BD'', example_bonus 6 ''b'' ''US'']
                     else if skip = 100 then [example_bonus 7 ''c'' ''BD'']
                     else []) \<rparr>"

text \<open>One good page, then a response with \<open>success: false\<close>.\<close>

definition failing_api :: "nat \<Rightarrow> error + responseData" where
  "failing_api skip =
     (if skip = 0 then Inr \<lparr> success = True, result = [example_bonus 5 ''a'' ''BD''] \<rparr>
      else Inr \<lparr> success = False, result = [example_bonus 6 ''b'' ''BD''] \<rparr>)"

text \<open>The ASCII part of \<open>toUpperCase\<close>, for the examples.\<close>

definition toUpperCase_ascii :: "string \<Rightarrow> string" where
  "toUpperCase_ascii s =
     map (\<lambda>c. let n = (of_char c :: nat) in
               if 97 \<le> n \<and> n \<le> 122 then char_of (n - 32) else c) s"

text \<open>
  Arithmetic without rounding. In the runs below every operand and every result is an
  integer below 2000, so that double precision arithmetic gives the same results.
\<close>

definition exact :: arith where
  "exact = \<lparr> fsub = (-), fdiv = (/), fmul = (*), fadd = (+) \<rparr>"

text \<open>A container of height 50 whose content has height 100.\<close>

definition example_element :: element where
  "example_element = \<lparr> clientHeight = 50, scrollHeight = 100 \<rparr>"

section \<open>Vocabulary of the statements\<close>

text \<open>
  What a page request answers: whether it came back with \<open>success\<close> true, and its records.
\<close>

definition page_ok :: "(nat \<Rightarrow> error + responseData) \<Rightarrow> nat \<Rightarrow> bool" where
  "page_ok listBonuses skip =
     (case listBonuses skip of Inl e \<Rightarrow> False | Inr r \<Rightarrow> success r)"

definition page :: "(nat \<Rightarrow> error + responseData) \<Rightarrow> nat \<Rightarrow> BonusResult list" where
  "page listBonuses skip =
     (case listBonuses skip of Inl e \<Rightarrow> [] | Inr r \<Rightarrow> result r)"

text \<open>
  The time \<open>animate\<close> takes as elapsed: the timestamp minus the time reference, and the
  timestamp minus itself when there is no time reference or the time reference is 0.
\<close>

definition elapsed :: "arith \<Rightarrow> real \<Rightarrow> ticker \<Rightarrow> real" where
  "elapsed ar timestamp t =
     fsub ar timestamp
       (case lastTimeRef t of
          None \<Rightarrow> timestamp
        | Some l \<Rightarrow> if l = 0 then timestamp else l)"

text \<open>
  What the statements about the sign of the offset need of the arithmetic. Operations that
  round the exact result to a nearest double have these properties while results are
  finite: subtracting a number from one that is not smaller, dividing a number that is not
  negative by a positive one, and multiplying two numbers that are not negative give a
  number that is not negative; adding a number that is not negative does not give less.
\<close>

definition monotone_rounding :: "arith \<Rightarrow> bool" where
  "monotone_rounding ar =
     ((\<forall>a b. b \<le> a \<longrightarrow> 0 \<le> fsub ar a b) \<and>
      (\<forall>a b. 0 \<le> a \<and> 0 < b \<longrightarrow> 0 \<le> fdiv ar a b) \<and>
      (\<forall>a b. 0 \<le> a \<and> 0 \<le> b \<longrightarrow> 0 \<le> fmul ar a b) \<and>
      (\<forall>a b. 0 \<le> b \<longrightarrow> a \<le> fadd ar a b))"

text \<open>
  The timestamp of the last frame of a run on which the callback ran, if there is one. The
  callback runs on the frames that come while the content is higher than the container;
  the function follows the events alone, with the container and content heights measured
  last (0 and 0 before the first measurement) and the timestamp found so far.
\<close>

fun previous_callback :: "real \<times> real \<Rightarrow> real option \<Rightarrow> event list \<Rightarrow> real option" where
  "previous_callback hs prev [] = prev"
| "previous_callback hs prev (Frame ts # evs) =
     previous_callback hs (if fst hs < snd hs then Some ts else prev) evs"
| "previous_callback hs prev (Measure None # evs) = previous_callback hs prev evs"
| "previous_callback hs prev (Measure (Some el) # evs) =
     previous_callback (clientHeight el, scrollHeight el) prev evs"

text \<open>
  A frame callback is scheduled in the way the component schedules it: one callback, whose
  handle is the one in \<open>animationRef\<close>, with the current \<open>speed\<close> and \<open>contentHeight\<close>
  in its closure, and with the cleanup function of the effect registered.
\<close>

definition scheduled :: "real \<Rightarrow> ticker \<Rightarrow> bool" where
  "scheduled speed t =
     (case animationRef t of
        None \<Rightarrow> False
      | Some h \<Rightarrow>
          0 < h \<and> h < nextHandle t \<and> cleanup t \<and>
          frameCallbacks t =
            [\<lparr> handle = h, cb_speed = speed, cb_contentHeight = contentHeight t \<rparr>])"

text \<open>
  The invariant of a mounted ticker: a callback is scheduled exactly when the content is
  higher than the container.
\<close>

definition consistent :: "real \<Rightarrow> ticker \<Rightarrow> bool" where
  "consistent speed t =
     (0 < nextHandle t \<and>
      (if contentHeight t \<le> containerHeight t then frameCallbacks t = []
       else scheduled speed t))"

text \<open>The timestamps of the frames of a run, in their order.\<close>

fun timestamps :: "event list \<Rightarrow> real list" where
  "timestamps [] = []"
| "timestamps (Frame ts # evs) = ts # timestamps evs"
| "timestamps (Measure m # evs) = timestamps evs"

text \<open>An event that leaves the content no higher than the container.\<close>

fun fits :: "event \<Rightarrow> bool" where
  "fits (Measure (Some el)) = (scrollHeight el \<le> clientHeight el)"
| "fits (Measure None) = True"
| "fits (Frame ts) = True"

section \<open>Properties of the Feed Loader\<close>

subsection \<open>The loop, one page at a time\<close>

lemma fetch_loop_nonempty:
  "page_ok api skip \<Longrightarrow> page api skip \<noteq> [] \<Longrightarrow>
   fetch_loop api skip results requested =
     fetch_loop api (skip + 100) (results @ page api skip) (requested @ [skip])"
  by (subst fetch_loop.simps) (simp add: page_ok_def page_def split: sum.splits)

lemma fetch_loop_empty:
  "page_ok api skip \<Longrightarrow> page api skip = [] \<Longrightarrow>
   fetch_loop api skip results requested = Some (requested @ [skip], Inr results)"
  by (subst fetch_loop.simps) (simp add: page_ok_def page_def split: sum.splits)

lemma fetch_loop_failed:
  "api skip = Inr r \<Longrightarrow> \<not> success r \<Longrightarrow>
   fetch_loop api skip results requested =
     Some (requested @ [skip], Inl (Error ''failed to fetch bonuses''))"
  by (subst fetch_loop.simps) simp

lemma fetch_loop_rejected:
  "api skip = Inl e \<Longrightarrow>
   fetch_loop api skip results requested = Some (requested @ [skip], Inl e)"
  by (subst fetch_loop.simps) simp

lemma fetch_loop_pages:
  "(\<And>k. k < n \<Longrightarrow> page_ok api (skip + 100 * k) \<and> page api (skip + 100 * k) \<noteq> []) \<Longrightarrow>
   fetch_loop api skip results requested =
     fetch_loop api (skip + 100 * n)
       (results @ concat (map (\<lambda>k. page api (skip + 100 * k)) [0..<n]))
       (requested @ map (\<lambda>k. skip + 100 * k) [0..<n])"
proof (induction n)
  case 0
  show ?case by simp
next
  case (Suc n)
  have step: "page_ok api (skip + 100 * n) \<and> page api (skip + 100 * n) \<noteq> []"
    using Suc.prems [of n] by simp
  have "fetch_loop api skip results requested =
     fetch_loop api (skip + 100 * n)
       (results @ concat (map (\<lambda>k. page api (skip + 100 * k)) [0..<n]))
       (requested @ map (\<lambda>k. skip + 100 * k) [0..<n])"
    using Suc.IH Suc.prems by simp
  also have "\<dots> = fetch_loop api (skip + 100 * Suc n)
       (results @ concat (map (\<lambda>k. page api (skip + 100 * k)) [0..<Suc n]))
       (requested @ map (\<lambda>k. skip + 100 * k) [0..<Suc n])"
    using step by (simp add: fetch_loop_nonempty add.assoc add.commute [of 100])
  finally show ?case .
qed

lemma fetch_loop_stops_at_empty:
  assumes "\<And>k. k < n \<Longrightarrow> page_ok api (100 * k) \<and> page api (100 * k) \<noteq> []"
    and "page_ok api (100 * n)" and "page api (100 * n) = []"
  shows "fetch_loop api 0 [] [] =
     Some (map (\<lambda>k. 100 * k) [0..<Suc n],
           Inr (concat (map (\<lambda>k. page api (100 * k)) [0..<n])))"
  using fetch_loop_pages [of n api 0 "[]" "[]"] assms
  by (simp add: fetch_loop_empty)

lemma fetch_loop_stops_at_failure:
  assumes "\<And>k. k < n \<Longrightarrow> page_ok api (100 * k) \<and> page api (100 * k) \<noteq> []"
    and "api (100 * n) = Inr r" and "\<not> success r"
  shows "fetch_loop api 0 [] [] =
     Some (map (\<lambda>k. 100 * k) [0..<Suc n], Inl (Error ''failed to fetch bonuses''))"
  using fetch_loop_pages [of n api 0 "[]" "[]"] assms
  by (simp add: fetch_loop_failed)

lemma fetch_loop_returns_only_at_end:
  assumes "fetch_loop api skip results requested = Some y"
  shows "\<exists>k. \<not> (page_ok api (skip + 100 * k) \<and> page api (skip + 100 * k) \<noteq> [])"
proof (rule fetch_loop.raw_induct
    [where P = "\<lambda>api skip results requested y.
       \<exists>k. \<not> (page_ok api (skip + 100 * k) \<and> page api (skip + 100 * k) \<noteq> [])",
     OF _ assms], goal_cases)
  case (1 loop api skip results requested y)
  show ?case
  proof (cases "page_ok api skip \<and> page api skip \<noteq> []")
    case False
    then have "\<not> (page_ok api (skip + 100 * 0) \<and> page api (skip + 100 * 0) \<noteq> [])"
      by simp
    then show ?thesis by blast
  next
    case True
    then have "loop api (skip + 100) (results @ page api skip) (requested @ [skip]) = Some y"
      using 1(2) by (simp add: page_ok_def page_def split: sum.splits)
    from 1(1) [OF this] obtain k where
      "\<not> (page_ok api (skip + 100 + 100 * k) \<and> page api (skip + 100 + 100 * k) \<noteq> [])"
      by blast
    then have "\<not> (page_ok api (skip + 100 * Suc k) \<and> page api (skip + 100 * Suc k) \<noteq> [])"
      by (simp add: add.assoc)
    then show ?thesis by blast
  qed
qed

lemma fetch_loop_never_returns:
  assumes "\<And>k. page_ok api (skip + 100 * k) \<and> page api (skip + 100 * k) \<noteq> []"
  shows "fetch_loop api skip results requested = None"
proof (cases "fetch_loop api skip results requested")
  case None
  then show ?thesis .
next
  case (Some y)
  from fetch_loop_returns_only_at_end [OF this] assms show ?thesis by blast
qed

lemma getBonuses_of_loop:
  "fetch_loop api 0 [] [] = Some (requested, Inr raw) \<Longrightarrow>
   getBonuses api = Some (requested, Inr (filter_reshape raw))"
  "fetch_loop api 0 [] [] = Some (requested, Inl e) \<Longrightarrow>
   getBonuses api = Some (requested, Inl e)"
  "fetch_loop api 0 [] [] = None \<Longrightarrow> getBonuses api = None"
  by (simp_all add: getBonuses_def)

lemma filter_reshape_append:
  "filter_reshape (xs @ ys) = filter_reshape xs @ filter_reshape ys"
  by (simp add: filter_reshape_def)

lemma example_bonus_country [simp]:
  "country (BonusResult.receiver (example_bonus a g c)) = c"
  by (simp add: example_bonus_def example_user_def)

lemma example_api_pages:
  "page_ok example_api k" "page example_api 0 = replicate 100 (example_bonus 5 ''a'' ''BD'')"
  "page example_api 100 = replicate 100 (example_bonus 6 ''b'' ''US'')"
  "page example_api 200 = replicate 37 (example_bonus 7 ''c'' ''BD'')"
  "page example_api 300 = []"
  by (simp_all add: page_ok_def page_def example_api_def)

lemma small_api_loop:
  "fetch_loop small_api 0 [] [] =
     Some ([0, 100, 200],
           Inr [example_bonus 5 ''a'' ''BD'', example_bonus 6 ''b'' ''US'',
                example_bonus 7 ''c'' ''BD''])"
proof -
  have "fetch_loop small_api 0 [] [] =
      fetch_loop small_api 100 [example_bonus 5 ''a'' ''BD'', example_bonus 6 ''b'' ''US''] [0]"
    using fetch_loop_nonempty [of small_api 0 "[]" "[]"]
    by (simp add: page_ok_def page_def small_api_def)
  also have "\<dots> = fetch_loop small_api 200
      [example_bonus 5 ''a'' ''BD'', example_bonus 6 ''b'' ''US'', example_bonus 7 ''c'' ''BD'']
      [0, 100]"
    using fetch_loop_nonempty [of small_api 100 _ "[0]"]
    by (simp add: page_ok_def page_def small_api_def)
  also have "\<dots> = Some ([0, 100, 200],
           Inr [example_bonus 5 ''a'' ''BD'', example_bonus 6 ''b'' ''US'',
                example_bonus 7 ''c'' ''BD''])"
    using fetch_loop_empty [of small_api 200 _ "[0, 100]"]
    by (simp add: page_ok_def page_def small_api_def)
  finally show ?thesis .
qed

subsection \<open>Pagination\<close>

text \<open>
  Claim C2. When the requests at \<open>skip\<close> 0, 100, 200 and 300 come back with \<open>success\<close>
  true and pages of 100, 100, 37 and 0 records, the loop requests exactly these four pages,
  returns, and has collected the 237 records of the first three pages in their order. In
  general: when the pages at \<open>skip\<close> 0, 100, ..., \<open>100 * (n - 1)\<close> are not empty and
  the page at \<open>100 * n\<close> is empty, all of them successful, the loop requests
  \<open>skip = 0, 100, ..., 100 * n\<close> and nothing more, and returns the pages before the empty
  one, concatenated; and when no page is ever empty the loop never returns.
\<close>

theorem fetch_loop_pagination:
  "(page_ok api 0 \<and> page_ok api 100 \<and> page_ok api 200 \<and> page_ok api 300
      \<and> length (page api 0) = 100 \<and> length (page api 100) = 100
      \<and> length (page api 200) = 37 \<and> length (page api 300) = 0
    \<longrightarrow> fetch_loop api 0 [] [] =
          Some ([0, 100, 200, 300], Inr (page api 0 @ page api 100 @ page api 200))
        \<and> length (page api 0 @ page api 100 @ page api 200) = 237)
   \<and> ((\<forall>k\<le>n. page_ok api (100 * k)) \<and> (\<forall>k<n. page api (100 * k) \<noteq> [])
        \<and> page api (100 * n) = []
    \<longrightarrow> fetch_loop api 0 [] [] =
          Some (map (\<lambda>k. 100 * k) [0..<Suc n],
                Inr (concat (map (\<lambda>k. page api (100 * k)) [0..<n]))))
   \<and> ((\<forall>k. page_ok api (100 * k) \<and> page api (100 * k) \<noteq> [])
    \<longrightarrow> fetch_loop api 0 [] [] = None)"
proof (intro conjI impI)
  assume a: "page_ok api 0 \<and> page_ok api 100 \<and> page_ok api 200 \<and> page_ok api 300
      \<and> length (page api 0) = 100 \<and> length (page api 100) = 100
      \<and> length (page api 200) = 37 \<and> length (page api 300) = 0"
  have ne: "page api 0 \<noteq> []" "page api 100 \<noteq> []" "page api 200 \<noteq> []"
    using a by auto
  have "fetch_loop api 0 [] [] = fetch_loop api 100 (page api 0) [0]"
    using a ne fetch_loop_nonempty [of api 0 "[]" "[]"] by simp
  also have "\<dots> = fetch_loop api 200 (page api 0 @ page api 100) [0, 100]"
    using a ne fetch_loop_nonempty [of api 100 "page api 0" "[0]"] by simp
  also have "\<dots> = fetch_loop api 300 (page api 0 @ page api 100 @ page api 200) [0, 100, 200]"
    using a ne fetch_loop_nonempty [of api 200 "page api 0 @ page api 100" "[0, 100]"] by simp
  also have "\<dots> = Some ([0, 100, 200, 300], Inr (page api 0 @ page api 100 @ page api 200))"
    using a fetch_loop_empty [of api 300] by simp
  finally show "fetch_loop api 0 [] [] =
          Some ([0, 100, 200, 300], Inr (page api 0 @ page api 100 @ page api 200))" .
  show "length (page api 0 @ page api 100 @ page api 200) = 237"
    using a by simp
next
  assume a: "(\<forall>k\<le>n. page_ok api (100 * k)) \<and> (\<forall>k<n. page api (100 * k) \<noteq> [])
        \<and> page api (100 * n) = []"
  show "fetch_loop api 0 [] [] =
          Some (map (\<lambda>k. 100 * k) [0..<Suc n],
                Inr (concat (map (\<lambda>k. page api (100 * k)) [0..<n])))"
    by (rule fetch_loop_stops_at_empty) (use a in auto)
next
  assume a: "\<forall>k. page_ok api (100 * k) \<and> page api (100 * k) \<noteq> []"
  show "fetch_loop api 0 [] [] = None"
    by (rule fetch_loop_never_returns) (use a in simp)
qed

theorem fetch_loop_pagination_witness:
  "page_ok example_api 0 \<and> page_ok example_api 100 \<and> page_ok example_api 200
   \<and> page_ok example_api 300
   \<and> length (page example_api 0) = 100 \<and> length (page example_api 100) = 100
   \<and> length (page example_api 200) = 37 \<and> length (page example_api 300) = 0
   \<and> fetch_loop example_api 0 [] [] =
       Some ([0, 100, 200, 300],
             Inr (page example_api 0 @ page example_api 100 @ page example_api 200))
   \<and> length (page example_api 0 @ page example_api 100 @ page example_api 200) = 237
   \<and> fetch_loop example_api 0 [] [] =
       Some (map (\<lambda>k. 100 * k) [0..<Suc 3],
             Inr (concat (map (\<lambda>k. page example_api (100 * k)) [0..<3])))
   \<and> fetch_loop endless_api 0 [] [] = None"
proof -
  have h: "page_ok example_api 0 \<and> page_ok example_api 100 \<and> page_ok example_api 200
   \<and> page_ok example_api 300
   \<and> length (page example_api 0) = 100 \<and> length (page example_api 100) = 100
   \<and> length (page example_api 200) = 37 \<and> length (page example_api 300) = 0"
    by (simp add: example_api_pages)
  have g: "(\<forall>k\<le>3. page_ok example_api (100 * k))
     \<and> (\<forall>k<3. page example_api (100 * k) \<noteq> [])
     \<and> page example_api (100 * 3) = []"
  proof (intro conjI allI impI)
    fix k :: nat assume "k < 3"
    then have "k = 0 \<or> k = 1 \<or> k = 2" by arith
    then show "page example_api (100 * k) \<noteq> []"
      by (auto simp add: example_api_pages)
  qed (simp_all add: example_api_pages)
  have n: "fetch_loop endless_api 0 [] [] = None"
    using fetch_loop_pagination [of endless_api 0]
    by (simp add: page_ok_def page_def endless_api_def)
  from fetch_loop_pagination [of example_api 3] h g n show ?thesis
    by blast
qed

subsection \<open>Failure of a page\<close>

text \<open>
  Claim C4. When a requested page comes back with \<open>success\<close> false (the pages before it
  were successful and not empty, or it would not have been requested), \<open>getBonuses\<close>
  returns: its result is the one error \<open>failed to fetch bonuses\<close>, the failing request is
  the last request made, and no record of the earlier pages is handed to the caller.
\<close>

theorem getBonuses_failure_aborts:
  assumes "\<forall>k<n. page_ok api (100 * k) \<and> page api (100 * k) \<noteq> []"
    and "api (100 * n) = Inr r" and "\<not> success r"
  shows "getBonuses api =
     Some (map (\<lambda>k. 100 * k) [0..<Suc n], Inl (Error ''failed to fetch bonuses''))"
proof -
  have "fetch_loop api 0 [] [] =
     Some (map (\<lambda>k. 100 * k) [0..<Suc n], Inl (Error ''failed to fetch bonuses''))"
    by (rule fetch_loop_stops_at_failure [where r = r]) (use assms in auto)
  then show ?thesis by (rule getBonuses_of_loop)
qed

theorem getBonuses_failure_aborts_witness:
  "getBonuses failing_api = Some ([0, 100], Inl (Error ''failed to fetch bonuses''))"
proof -
  have "\<forall>k<1. page_ok failing_api (100 * k) \<and> page failing_api (100 * k) \<noteq> []"
    by (simp add: page_ok_def page_def failing_api_def)
  moreover have "failing_api (100 * 1) =
      Inr \<lparr> success = False, result = [example_bonus 6 ''b'' ''BD''] \<rparr>"
    by (simp add: failing_api_def)
  ultimately show ?thesis
    using getBonuses_failure_aborts [of 1 failing_api] by simp
qed

subsection \<open>Filter and reshape\<close>

text \<open>
  Claim C3. When the loop has collected a raw sequence, \<open>getBonuses\<close> returns its
  filtered and reshaped form. That form is built record by record, in the order of the
  raw sequence: a record whose receiver country is not \<open>"BD"\<close> contributes nothing, and a
  record whose receiver country is \<open>"BD"\<close> contributes one Recognition at its place, with
  \<open>amount\<close> and \<open>reason_decoded\<close> copied and, for giver and receiver alike,
  \<open>display_name\<close> as \<open>name\<close>, \<open>custom_properties.department\<close> as \<open>department\<close>,
  and \<open>email\<close> and \<open>profile_pic_url\<close> carried over.
\<close>

theorem filter_reshape_retains_BD_in_order:
  "(fetch_loop api 0 [] [] = Some (requested, Inr raw)
      \<longrightarrow> getBonuses api = Some (requested, Inr (filter_reshape raw)))
   \<and> filter_reshape [] = []
   \<and> (country (BonusResult.receiver b) \<noteq> ''BD''
      \<longrightarrow> filter_reshape (xs @ b # ys) = filter_reshape xs @ filter_reshape ys)
   \<and> (country (BonusResult.receiver b) = ''BD''
      \<longrightarrow> filter_reshape (xs @ b # ys) =
          filter_reshape xs @
          [\<lparr> amount = BonusResult.amount b,
             reason_decoded = BonusResult.reason_decoded b,
             giver =
               \<lparr> name = display_name (BonusResult.giver b),
                 email = User.email (BonusResult.giver b),
                 department =
                   custom_properties.department (custom_properties (BonusResult.giver b)),
                 profile_pic_url = User.profile_pic_url (BonusResult.giver b) \<rparr>,
             receiver =
               \<lparr> name = display_name (BonusResult.receiver b),
                 email = User.email (BonusResult.receiver b),
                 department =
                   custom_properties.department (custom_properties (BonusResult.receiver b)),
                 profile_pic_url = User.profile_pic_url (BonusResult.receiver b) \<rparr> \<rparr>]
          @ filter_reshape ys)"
  by (simp add: getBonuses_of_loop filter_reshape_def reshape_def Let_def)

theorem filter_reshape_retains_BD_in_order_witness:
  "getBonuses small_api =
     Some ([0, 100, 200],
           Inr [\<lparr> amount = 5, reason_decoded = ''thanks'',
                   giver = \<lparr> name = ''a'', email = ''a@example.com'',
                             department = ''Engineering'',
                             profile_pic_url = ''https://example.com/a.png'' \<rparr>,
                   receiver = \<lparr> name = ''rahim'', email = ''rahim@example.com'',
                                department = ''Engineering'',
                                profile_pic_url = ''https://example.com/rahim.png'' \<rparr> \<rparr>,
                \<lparr> amount = 7, reason_decoded = ''thanks'',
                   giver = \<lparr> name = ''c'', email = ''c@example.com'',
                             department = ''Engineering'',
                             profile_pic_url = ''https://example.com/c.png'' \<rparr>,
                   receiver = \<lparr> name = ''rahim'', email = ''rahim@example.com'',
                                department = ''Engineering'',
                                profile_pic_url = ''https://example.com/rahim.png'' \<rparr> \<rparr>])"
proof -
  let ?raw = "[example_bonus 5 ''a'' ''BD'', example_bonus 6 ''b'' ''US'',
               example_bonus 7 ''c'' ''BD'']"
  have out: "getBonuses small_api = Some ([0, 100, 200], Inr (filter_reshape ?raw))"
    using filter_reshape_retains_BD_in_order [of small_api "[0, 100, 200]" ?raw]
      small_api_loop by simp
  have e: "filter_reshape [] = []"
    using filter_reshape_retains_BD_in_order [of small_api "[]" "[]"] by simp
  have us: "filter_reshape ([example_bonus 5 ''a'' ''BD''] @ example_bonus 6 ''b'' ''US'' #
       [example_bonus 7 ''c'' ''BD'']) =
     filter_reshape [example_bonus 5 ''a'' ''BD''] @ filter_reshape [example_bonus 7 ''c'' ''BD'']"
    using filter_reshape_retains_BD_in_order
      [of small_api "[]" "[]" "example_bonus 6 ''b'' ''US''" "[example_bonus 5 ''a'' ''BD'']"
          "[example_bonus 7 ''c'' ''BD'']"]
    by simp
  have bd: "filter_reshape ([] @ example_bonus a g ''BD'' # []) =
     [\<lparr> amount = a, reason_decoded = ''thanks'',
        giver = \<lparr> name = g, email = g @ ''@example.com'', department = ''Engineering'',
                  profile_pic_url = ''https://example.com/'' @ g @ ''.png'' \<rparr>,
        receiver = \<lparr> name = ''rahim'', email = ''rahim@example.com'',
                     department = ''Engineering'',
                     profile_pic_url = ''https://example.com/rahim.png'' \<rparr> \<rparr>]" for a g
    using filter_reshape_retains_BD_in_order
      [of small_api "[]" "[]" "example_bonus a g ''BD''" "[]" "[]"] e
    by (simp add: example_bonus_def example_user_def)
  show ?thesis
    using out us bd [of 5 "''a''"] bd [of 7 "''c''"] by simp
qed

text \<open>
  Claim C9. Two raw sequences with the same subsequence of records whose receiver country
  is \<open>"BD"\<close> are filtered and reshaped to the same output: the other records have no
  influence on it.
\<close>

theorem filter_reshape_ignores_other_countries:
  assumes "filter (\<lambda>b. country (BonusResult.receiver b) = ''BD'') xs =
           filter (\<lambda>b. country (BonusResult.receiver b) = ''BD'') ys"
  shows "filter_reshape xs = filter_reshape ys"
  using assms by (simp add: filter_reshape_def)

theorem filter_reshape_ignores_other_countries_witness:
  "filter_reshape [example_bonus 5 ''a'' ''BD'', example_bonus 6 ''b'' ''US'',
                   example_bonus 7 ''c'' ''BD''] =
   filter_reshape [example_bonus 9 ''x'' ''IN'', example_bonus 5 ''a'' ''BD'',
                   example_bonus 7 ''c'' ''BD'', example_bonus 0 ''y'' ''bd'']"
  by (rule filter_reshape_ignores_other_countries) simp

section \<open>Properties of the display list\<close>

text \<open>
  Claim C5. For every input sequence, the rendered display list is the input followed by
  the input's first \<open>min(3, length)\<close> elements in their order, so that its length is the
  input's length plus \<open>min(3, length)\<close>.
\<close>

theorem displayRecognitions_prefix_appended:
  "displayRecognitions rs = rs @ take (min 3 (length rs)) rs
   \<and> length (displayRecognitions rs) = length rs + min 3 (length rs)
   \<and> take (length rs) (displayRecognitions rs) = rs
   \<and> drop (length rs) (displayRecognitions rs) = take (min 3 (length rs)) rs"
  by (simp add: displayRecognitions_def duplicateCount_def slice_def)

section \<open>Properties of the avatar fallback\<close>

lemma split_str_nonempty: "split_str sep s \<noteq> []"
  by (induction s) (auto split: list.splits)

lemma join_str_empty_sep:
  "join_str [] xs = concat (map (\<lambda>x. case x of None \<Rightarrow> [] | Some c \<Rightarrow> [c]) xs)"
  by (induction "[] :: 'a list" xs rule: join_str.induct) simp_all

lemma first_chars_of_words:
  "join_str [] (map first_char ws) = map hd (filter (\<lambda>w. w \<noteq> []) ws)"
  unfolding join_str_empty_sep
  by (induction ws) (auto simp add: first_char_def split: list.splits)

lemma substring_0: "substring 0 n s = take n s"
  by (simp add: substring_def Let_def min_def max_def)

lemma split_str_no_sep: "w \<in> set (split_str sep s) \<Longrightarrow> sep \<notin> set w"
  by (induction s arbitrary: w) (auto split: if_splits list.splits)

lemma split_str_rejoin: "concat (map ((#) sep) (split_str sep s)) = sep # s"
  by (induction s) (auto split: list.splits)

text \<open>
  Claim C10. For every name, \<open>getInitials\<close> returns at most two characters: the first
  characters of the words between the spaces of the name, in their order, put together,
  converted to upper case as a whole and then cut to the first two characters. A piece
  between two spaces that is empty has no first character and contributes nothing.
\<close>

theorem getInitials_two_initials:
  "getInitials toUpperCase nm =
     take 2 (toUpperCase (map hd (filter (\<lambda>w. w \<noteq> []) (split_str CHR '' '' nm))))
   \<and> length (getInitials toUpperCase nm) \<le> 2"
  by (simp add: getInitials_def substring_0 first_chars_of_words)

theorem getInitials_two_initials_witness:
  "getInitials toUpperCase_ascii ''john  ronald doe'' = ''JR''"
proof -
  have "take 2 (toUpperCase_ascii
      (map hd (filter (\<lambda>w. w \<noteq> []) (split_str CHR '' '' ''john  ronald doe'')))) = ''JR''"
    by code_simp
  with getInitials_two_initials [of toUpperCase_ascii "''john  ronald doe''"]
  show ?thesis by (simp only:)
qed

section \<open>Properties of the animation\<close>

subsection \<open>One frame, one measurement\<close>

lemma animate_eq:
  "animate ar speed ch ts t =
     t\<lparr> scrollPosition :=
          (if ch \<le> scrollPosition t then 0
           else fadd ar (scrollPosition t) (fmul ar (fdiv ar speed 1000) (elapsed ar ts t))),
        lastTimeRef := Some ts,
        frameCallbacks :=
          frameCallbacks t @
            [\<lparr> handle = nextHandle t, cb_speed = speed, cb_contentHeight = ch \<rparr>],
        nextHandle := nextHandle t + 1,
        animationRef := Some (nextHandle t) \<rparr>"
  by (simp add: animate_def requestAnimationFrame_def elapsed_def Let_def
      split: option.splits)

lemma frame_idle: "frameCallbacks t = [] \<Longrightarrow> frame ar ts t = t"
  by (simp add: frame_def)

lemma frame_scheduled:
  "scheduled speed t \<Longrightarrow>
   frame ar ts t =
     t\<lparr> scrollPosition :=
          (if contentHeight t \<le> scrollPosition t then 0
           else fadd ar (scrollPosition t) (fmul ar (fdiv ar speed 1000) (elapsed ar ts t))),
        lastTimeRef := Some ts,
        frameCallbacks :=
          [\<lparr> handle = nextHandle t, cb_speed = speed, cb_contentHeight = contentHeight t \<rparr>],
        nextHandle := nextHandle t + 1,
        animationRef := Some (nextHandle t) \<rparr>"
  by (auto simp add: scheduled_def frame_def animate_eq elapsed_def split: option.splits)

lemma cleanupAnimation_consistent:
  "consistent speed t \<Longrightarrow>
   cleanupAnimation (updateDimensions m t) = (updateDimensions m t)\<lparr> frameCallbacks := [] \<rparr>"
  by (cases m)
    (auto simp add: consistent_def scheduled_def cleanupAnimation_def updateDimensions_def
      cancelAnimationFrame_def split: option.splits if_splits)

lemma animationEffect_eq:
  "frameCallbacks t = [] \<Longrightarrow>
   animationEffect m speed t =
     (if m = None \<or> contentHeight t \<le> containerHeight t then t\<lparr> cleanup := False \<rparr>
      else t\<lparr> frameCallbacks :=
                [\<lparr> handle = nextHandle t, cb_speed = speed,
                   cb_contentHeight = contentHeight t \<rparr>],
              nextHandle := nextHandle t + 1,
              animationRef := Some (nextHandle t), cleanup := True \<rparr>)"
  by (simp add: animationEffect_def requestAnimationFrame_def)

lemma step_Measure: "step ar speed (Measure m) t = remeasure speed m t"
  by (simp add: step_def)

lemma remeasure_keeps:
  "scrollPosition (remeasure speed m t) = scrollPosition t"
  "lastTimeRef (remeasure speed m t) = lastTimeRef t"
  by (auto simp add: remeasure_def Let_def updateDimensions_def cleanupAnimation_def
      cancelAnimationFrame_def animationEffect_def requestAnimationFrame_def
      split: option.splits)

lemma remeasure_heights:
  "contentHeight (remeasure speed (Some el) t) = scrollHeight el"
  "containerHeight (remeasure speed (Some el) t) = clientHeight el"
  by (auto simp add: remeasure_def Let_def updateDimensions_def cleanupAnimation_def
      cancelAnimationFrame_def animationEffect_def requestAnimationFrame_def
      split: option.splits)

lemma remeasure_None: "remeasure speed None t = t"
  by (simp add: remeasure_def updateDimensions_def)

lemma consistent_step:
  assumes "consistent speed t"
  shows "consistent speed (step ar speed e t)"
proof (cases e)
  case (Frame ts)
  show ?thesis
  proof (cases "contentHeight t \<le> containerHeight t")
    case True
    with assms Frame show ?thesis
      by (simp add: step_def frame_idle consistent_def)
  next
    case False
    with assms have s: "scheduled speed t" by (simp add: consistent_def)
    show ?thesis
      using assms False s
      by (auto simp add: Frame step_def frame_scheduled [OF s] consistent_def scheduled_def
          split: option.splits)
  qed
next
  case (Measure m)
  show ?thesis
  proof (cases m)
    case None
    with assms Measure show ?thesis
      by (simp add: step_Measure remeasure_None)
  next
    case (Some el)
    show ?thesis
      using assms cleanupAnimation_consistent [OF assms, of m]
      by (auto simp add: Measure Some step_def remeasure_def Let_def animationEffect_eq
          updateDimensions_def consistent_def scheduled_def split: option.splits)
  qed
qed

lemma consistent_before_mount: "consistent speed (animationEffect m speed initial)"
  by (simp add: animationEffect_def initial_def consistent_def)

lemma consistent_mount: "consistent speed (mount m speed)"
  using consistent_step [OF consistent_before_mount, where ar = exact and e = "Measure m"]
  by (simp add: mount_def step_Measure)

lemma run_Nil [simp]: "run ar speed [] t = t"
  by (simp add: run_def)

lemma run_Cons [simp]: "run ar speed (e # evs) t = run ar speed evs (step ar speed e t)"
  by (simp add: run_def)

lemma run_append: "run ar speed (evs @ evs') t = run ar speed evs' (run ar speed evs t)"
  by (simp add: run_def)

lemma consistent_run: "consistent speed t \<Longrightarrow> consistent speed (run ar speed evs t)"
  by (induction evs arbitrary: t) (simp_all add: consistent_step)

lemma consistent_reachable: "consistent speed (run ar speed evs (mount m speed))"
  by (rule consistent_run) (rule consistent_mount)

lemma step_Measure_keeps:
  "scrollPosition (step ar speed (Measure m) t) = scrollPosition t"
  "lastTimeRef (step ar speed (Measure m) t) = lastTimeRef t"
  by (simp_all add: step_Measure remeasure_keeps)

lemma mount_fresh:
  "scrollPosition (mount m speed) = 0" "lastTimeRef (mount m speed) = None"
  by (simp_all add: mount_def remeasure_keeps animationEffect_def initial_def
      requestAnimationFrame_def)

lemma step_Frame_reachable:
  assumes "consistent speed t"
  shows "step ar speed (Frame ts) t =
     (if contentHeight t \<le> containerHeight t then t
      else t\<lparr> scrollPosition :=
                (if contentHeight t \<le> scrollPosition t then 0
                 else fadd ar (scrollPosition t) (fmul ar (fdiv ar speed 1000) (elapsed ar ts t))),
              lastTimeRef := Some ts,
              frameCallbacks :=
                [\<lparr> handle = nextHandle t, cb_speed = speed,
                   cb_contentHeight = contentHeight t \<rparr>],
              nextHandle := nextHandle t + 1,
              animationRef := Some (nextHandle t) \<rparr>)"
proof (cases "contentHeight t \<le> containerHeight t")
  case True
  with assms show ?thesis by (simp add: step_def frame_idle consistent_def)
next
  case False
  with assms have "scheduled speed t" by (simp add: consistent_def)
  from frame_scheduled [OF this] False show ?thesis by (simp add: step_def)
qed

lemma exact_monotone_rounding: "monotone_rounding exact"
  by (simp add: monotone_rounding_def exact_def)

lemma elapsed_nonneg:
  "monotone_rounding ar \<Longrightarrow> \<forall>l. lastTimeRef t = Some l \<longrightarrow> l \<le> ts \<Longrightarrow>
   0 \<le> elapsed ar ts t"
  by (simp add: elapsed_def monotone_rounding_def split: option.splits)

lemma advance_not_less:
  assumes "monotone_rounding ar" and "0 \<le> speed" and "0 \<le> d"
  shows "p \<le> fadd ar p (fmul ar (fdiv ar speed 1000) d)"
proof -
  have "0 \<le> fdiv ar speed 1000"
    using assms(1,2) by (simp add: monotone_rounding_def)
  then have "0 \<le> fmul ar (fdiv ar speed 1000) d"
    using assms(1,3) by (simp add: monotone_rounding_def)
  then show ?thesis
    using assms(1) by (simp add: monotone_rounding_def)
qed

lemma offset_nonneg_run:
  assumes "0 \<le> speed" and mr: "monotone_rounding ar"
  shows "consistent speed t \<Longrightarrow> 0 \<le> scrollPosition t \<Longrightarrow> sorted (timestamps evs) \<Longrightarrow>
     \<forall>l. lastTimeRef t = Some l \<longrightarrow> (\<forall>ts \<in> set (timestamps evs). l \<le> ts) \<Longrightarrow>
     0 \<le> scrollPosition (run ar speed evs t)"
proof (induction evs arbitrary: t)
  case Nil
  then show ?case by simp
next
  case (Cons e evs)
  show ?case
  proof (cases e)
    case (Measure m)
    have "0 \<le> scrollPosition (run ar speed evs (step ar speed (Measure m) t))"
      using Cons.prems Measure
      by (intro Cons.IH) (simp_all add: consistent_step step_Measure_keeps)
    then show ?thesis by (simp add: Measure)
  next
    case (Frame ts)
    let ?t = "step ar speed (Frame ts) t"
    have el: "0 \<le> elapsed ar ts t"
      using Cons.prems(4) Frame by (intro elapsed_nonneg mr) simp
    have "scrollPosition t
        \<le> fadd ar (scrollPosition t) (fmul ar (fdiv ar speed 1000) (elapsed ar ts t))"
      using mr assms(1) el by (rule advance_not_less)
    then have pos: "0 \<le> scrollPosition ?t"
      using Cons.prems(1,2)
      by (simp add: step_Frame_reachable)
    have last: "\<forall>l. lastTimeRef ?t = Some l \<longrightarrow> (\<forall>x \<in> set (timestamps evs). l \<le> x)"
      using Cons.prems(1,3,4) Frame
      by (auto simp add: step_Frame_reachable)
    have "0 \<le> scrollPosition (run ar speed evs ?t)"
      using Cons.prems Frame pos last
      by (intro Cons.IH) (simp_all add: consistent_step)
    then show ?thesis by (simp add: Frame)
  qed
qed

lemma step_Measure_heights:
  "contentHeight (step ar speed (Measure (Some el)) t) = scrollHeight el"
  "containerHeight (step ar speed (Measure (Some el)) t) = clientHeight el"
  by (simp_all add: step_Measure remeasure_heights)

lemma step_Measure_None: "step ar speed (Measure None) t = t"
  by (simp add: step_Measure remeasure_None)

lemma mount_heights:
  "contentHeight (mount m speed) = (case m of None \<Rightarrow> 0 | Some el \<Rightarrow> scrollHeight el)"
  "containerHeight (mount m speed) = (case m of None \<Rightarrow> 0 | Some el \<Rightarrow> clientHeight el)"
  by (cases m;
      simp add: mount_def remeasure_heights remeasure_None animationEffect_def
        initial_def)+

lemma idle_frames:
  "consistent speed t \<Longrightarrow> contentHeight t \<le> containerHeight t \<Longrightarrow>
   run ar speed (map Frame tss) t = t"
  by (induction tss) (simp_all add: step_Frame_reachable)

lemma fitting_run:
  "consistent speed t \<Longrightarrow> contentHeight t \<le> containerHeight t \<Longrightarrow>
   \<forall>e \<in> set evs. fits e \<Longrightarrow>
   scrollPosition (run ar speed evs t) = scrollPosition t
   \<and> contentHeight (run ar speed evs t) \<le> containerHeight (run ar speed evs t)"
proof (induction evs arbitrary: t)
  case Nil
  then show ?case by simp
next
  case (Cons e evs)
  show ?case
  proof (cases e)
    case (Frame ts)
    with Cons.prems have "step ar speed e t = t"
      by (simp add: step_Frame_reachable)
    with Cons show ?thesis by simp
  next
    case (Measure m)
    show ?thesis
    proof (cases m)
      case None
      with Measure have "step ar speed e t = t" by (simp add: step_Measure_None)
      with Cons show ?thesis by simp
    next
      case (Some el)
      let ?t = "step ar speed e t"
      have "consistent speed ?t" using Cons.prems(1) by (rule consistent_step)
      moreover have "contentHeight ?t \<le> containerHeight ?t"
        using Cons.prems(3) by (simp add: Measure Some step_Measure_heights)
      moreover have "\<forall>e \<in> set evs. fits e" using Cons.prems(3) by simp
      ultimately have "scrollPosition (run ar speed evs ?t) = scrollPosition ?t
          \<and> contentHeight (run ar speed evs ?t) \<le> containerHeight (run ar speed evs ?t)"
        by (rule Cons.IH)
      then show ?thesis by (simp add: Measure step_Measure_keeps)
    qed
  qed
qed

lemma step_Measure_restart:
  assumes "consistent speed t"
    and "\<not> (contentHeight (step ar speed (Measure m) t) = contentHeight t
           \<and> containerHeight (step ar speed (Measure m) t) = containerHeight t)"
  shows "frameCallbacks (step ar speed (Measure m) t) =
     (if contentHeight (step ar speed (Measure m) t) \<le> containerHeight (step ar speed (Measure m) t)
      then []
      else [\<lparr> handle = nextHandle t, cb_speed = speed,
              cb_contentHeight = contentHeight (step ar speed (Measure m) t) \<rparr>])"
proof (cases m)
  case None
  with assms(2) show ?thesis by (simp add: step_Measure_None)
next
  case (Some el)
  have ch: "\<not> (scrollHeight el = contentHeight t \<and> clientHeight el = containerHeight t)"
    using assms(2) by (simp add: Some step_Measure_heights)
  have "step ar speed (Measure m) t =
      animationEffect m speed ((updateDimensions m t)\<lparr> frameCallbacks := [] \<rparr>)"
    using ch cleanupAnimation_consistent [OF assms(1), of m]
    by (auto simp add: step_def remeasure_def Let_def Some updateDimensions_def)
  then show ?thesis
    by (simp add: animationEffect_eq Some updateDimensions_def)
qed

lemma consistent_handles:
  "consistent speed t \<Longrightarrow> c \<in> set (frameCallbacks t) \<Longrightarrow> handle c < nextHandle t"
  by (auto simp add: consistent_def scheduled_def split: if_splits option.splits)

lemma timestamps_append: "timestamps (evs @ evs') = timestamps evs @ timestamps evs'"
  by (induction evs rule: timestamps.induct) simp_all

lemma lastTimeRef_run:
  "consistent speed t \<Longrightarrow> lastTimeRef (run ar speed evs t) = Some l \<Longrightarrow>
   lastTimeRef t = Some l \<or> l \<in> set (timestamps evs)"
proof (induction evs arbitrary: t)
  case Nil
  then show ?case by simp
next
  case (Cons e evs)
  have c: "consistent speed (step ar speed e t)"
    using Cons.prems(1) by (rule consistent_step)
  have "lastTimeRef (step ar speed e t) = Some l \<or> l \<in> set (timestamps evs)"
    using Cons.IH [OF c] Cons.prems(2) by simp
  then show ?case
  proof
    assume "l \<in> set (timestamps evs)"
    then show ?thesis by (cases e) simp_all
  next
    assume s: "lastTimeRef (step ar speed e t) = Some l"
    show ?thesis
    proof (cases e)
      case (Measure m)
      with s show ?thesis by (simp add: step_Measure_keeps)
    next
      case (Frame ts)
      with s Cons.prems(1) show ?thesis
        by (auto simp add: step_Frame_reachable split: if_splits)
    qed
  qed
qed

lemma elapsed_reachable_nonneg:
  assumes "sorted (timestamps (evs @ [Frame ts]))" and mr: "monotone_rounding ar"
  shows "0 \<le> elapsed ar ts (run ar speed evs (mount m speed))"
proof (rule elapsed_nonneg [OF mr], intro allI impI)
  fix l
  assume "lastTimeRef (run ar speed evs (mount m speed)) = Some l"
  from lastTimeRef_run [OF consistent_mount this]
  have "l \<in> set (timestamps evs)" by (simp add: mount_fresh)
  with assms show "l \<le> ts"
    by (simp add: timestamps_append sorted_append)
qed

lemma offset_monotone_frame:
  assumes "0 \<le> speed" and "sorted (timestamps (evs @ [Frame ts]))"
    and "scrollPosition (run ar speed evs (mount m speed))
           < contentHeight (run ar speed evs (mount m speed))"
    and mr: "monotone_rounding ar"
  shows "scrollPosition (run ar speed evs (mount m speed))
           \<le> scrollPosition (step ar speed (Frame ts) (run ar speed evs (mount m speed)))"
  using assms(3)
    advance_not_less [OF mr assms(1) elapsed_reachable_nonneg [OF assms(2) mr, of speed m],
      of "scrollPosition (run ar speed evs (mount m speed))"]
  by (simp add: step_Frame_reachable [OF consistent_reachable])

lemma lastTimeRef_previous_callback:
  "consistent speed t \<Longrightarrow>
   lastTimeRef (run ar speed evs t) =
     previous_callback (containerHeight t, contentHeight t) (lastTimeRef t) evs"
proof (induction evs arbitrary: t)
  case Nil
  then show ?case by simp
next
  case (Cons e evs)
  have c: "consistent speed (step ar speed e t)"
    using Cons.prems by (rule consistent_step)
  show ?case
  proof (cases e)
    case (Frame ts)
    show ?thesis
      using Cons.IH [OF c] Cons.prems
      by (simp add: Frame step_Frame_reachable)
  next
    case (Measure m)
    show ?thesis
    proof (cases m)
      case None
      with Cons.IH [OF c] Measure show ?thesis
        by (simp add: step_Measure_None)
    next
      case (Some el)
      with Cons.IH [OF c] Measure show ?thesis
        by (simp add: step_Measure_heights step_Measure_keeps)
    qed
  qed
qed

lemma lastTimeRef_reachable:
  "lastTimeRef (run ar speed evs (mount m speed)) =
     previous_callback (0, 0) None (Measure m # evs)"
proof -
  have "run ar speed evs (mount m speed) =
      run ar speed (Measure m # evs) (animationEffect m speed initial)"
    by (simp add: mount_def step_Measure)
  also have "lastTimeRef \<dots> = previous_callback
      (containerHeight (animationEffect m speed initial),
       contentHeight (animationEffect m speed initial))
      (lastTimeRef (animationEffect m speed initial)) (Measure m # evs)"
    using consistent_before_mount by (rule lastTimeRef_previous_callback)
  finally show ?thesis
    by (simp add: animationEffect_def initial_def)
qed

lemmas ticker_defs =
  run_def mount_def step_def remeasure_def exact_def initial_def animationEffect_def updateDimensions_def
  cleanupAnimation_def cancelAnimationFrame_def requestAnimationFrame_def frame_def
  animate_def Let_def example_element_def

subsection \<open>The offset from frame to frame\<close>

text \<open>
  Claim C1, as amended. The updater of \<open>animate\<close> tests the previous offset, not the new
  one: a call of \<open>animate\<close> with speed \<open>s\<close> sets the offset to exactly 0 when the previous
  offset has reached or exceeded the content extent, and otherwise to the previous offset
  plus \<open>(s / 1000) * d\<close>, with each operation rounded as the arithmetic rounds it,
  whether or not that sum reaches or exceeds the content extent; \<open>d\<close> is the timestamp
  minus the time reference. In a state reached from mounting, the time reference is the
  timestamp of the previous frame on which the callback ran; on the first such frame, and
  when that previous timestamp was 0, \<open>d\<close> is the timestamp minus itself. A frame
  presented in such a state runs the callback, with the current content extent, when the
  content is higher than the container, and changes nothing when the content fits. With
  arithmetic that rounds as described for \<open>monotone_rounding\<close>, a speed that is not
  negative and timestamps that do not decrease, the offset of every state reached from
  mounting is not negative, and a frame presented while the offset is below the content
  extent does not decrease it.
\<close>

theorem ticker_offset_per_frame:
  assumes "T = run ar speed evs (mount m speed)"
  shows "scrollPosition (animate ar speed ch ts t) =
     (if ch \<le> scrollPosition t then 0
      else fadd ar (scrollPosition t) (fmul ar (fdiv ar speed 1000) (elapsed ar ts t)))
   \<and> lastTimeRef T = previous_callback (0, 0) None (Measure m # evs)
   \<and> (containerHeight T < contentHeight T
      \<longrightarrow> scrollPosition (step ar speed (Frame ts) T) =
          (if contentHeight T \<le> scrollPosition T then 0
           else fadd ar (scrollPosition T)
                  (fmul ar (fdiv ar speed 1000)
                     (fsub ar ts
                        (case previous_callback (0, 0) None (Measure m # evs) of
                           None \<Rightarrow> ts
                         | Some l \<Rightarrow> if l = 0 then ts else l))))
        \<and> lastTimeRef (step ar speed (Frame ts) T) = Some ts)
   \<and> (contentHeight T \<le> containerHeight T \<longrightarrow> step ar speed (Frame ts) T = T)
   \<and> (monotone_rounding ar \<and> 0 \<le> speed \<and> sorted (timestamps evs)
      \<longrightarrow> 0 \<le> scrollPosition T)
   \<and> (monotone_rounding ar \<and> 0 \<le> speed \<and> sorted (timestamps (evs @ [Frame ts]))
        \<and> scrollPosition T < contentHeight T
      \<longrightarrow> scrollPosition T \<le> scrollPosition (step ar speed (Frame ts) T))"
proof -
  have c: "consistent speed T"
    unfolding assms by (rule consistent_reachable)
  have last: "lastTimeRef T = previous_callback (0, 0) None (Measure m # evs)"
    unfolding assms by (rule lastTimeRef_reachable)
  have one: "scrollPosition (animate ar speed ch ts t) =
     (if ch \<le> scrollPosition t then 0
      else fadd ar (scrollPosition t) (fmul ar (fdiv ar speed 1000) (elapsed ar ts t)))"
    by (simp add: animate_eq)
  have el: "elapsed ar ts T =
      fsub ar ts
        (case previous_callback (0, 0) None (Measure m # evs) of
           None \<Rightarrow> ts
         | Some l \<Rightarrow> if l = 0 then ts else l)"
    by (simp add: elapsed_def last)
  have running: "scrollPosition (step ar speed (Frame ts) T) =
          (if contentHeight T \<le> scrollPosition T then 0
           else fadd ar (scrollPosition T)
                  (fmul ar (fdiv ar speed 1000)
                     (fsub ar ts
                        (case previous_callback (0, 0) None (Measure m # evs) of
                           None \<Rightarrow> ts
                         | Some l \<Rightarrow> if l = 0 then ts else l))))
        \<and> lastTimeRef (step ar speed (Frame ts) T) = Some ts"
    if "containerHeight T < contentHeight T"
    using that by (simp add: step_Frame_reachable [OF c] el)
  have idle: "step ar speed (Frame ts) T = T" if "contentHeight T \<le> containerHeight T"
    using that by (simp add: step_Frame_reachable [OF c])
  have nonneg: "0 \<le> scrollPosition T"
    if "monotone_rounding ar \<and> 0 \<le> speed \<and> sorted (timestamps evs)"
    unfolding assms using that
    by (intro offset_nonneg_run) (simp_all add: consistent_mount mount_fresh)
  have mono: "scrollPosition T \<le> scrollPosition (step ar speed (Frame ts) T)"
    if "monotone_rounding ar \<and> 0 \<le> speed \<and> sorted (timestamps (evs @ [Frame ts]))
        \<and> scrollPosition T < contentHeight T"
    using that unfolding assms
    by (intro offset_monotone_frame) simp_all
  from one last running idle nonneg mono show ?thesis by blast
qed

theorem ticker_offset_per_frame_witness:
  "scrollPosition
     (animate exact 1000 100 1120
        (run exact 1000 [Frame 1000, Frame 1060] (mount (Some example_element) 1000)))
     = 120
   \<and> lastTimeRef (run exact 1000 [Frame 1000, Frame 1060] (mount (Some example_element) 1000))
     = Some 1060
   \<and> previous_callback (0, 0) None (Measure (Some example_element) # [Frame 1000, Frame 1060])
     = Some 1060
   \<and> containerHeight (run exact 1000 [Frame 1000, Frame 1060] (mount (Some example_element) 1000))
       < contentHeight (run exact 1000 [Frame 1000, Frame 1060] (mount (Some example_element) 1000))
   \<and> scrollPosition
       (step exact 1000 (Frame 1120)
          (run exact 1000 [Frame 1000, Frame 1060] (mount (Some example_element) 1000))) = 120
   \<and> lastTimeRef
       (step exact 1000 (Frame 1120)
          (run exact 1000 [Frame 1000, Frame 1060] (mount (Some example_element) 1000)))
     = Some 1120
   \<and> (100::real) \<le> scrollPosition
       (run exact 1000 [Frame 1000, Frame 1060, Frame 1120] (mount (Some example_element) 1000))
   \<and> scrollPosition
       (step exact 1000 (Frame 1180)
          (run exact 1000 [Frame 1000, Frame 1060, Frame 1120]
             (mount (Some example_element) 1000))) = 0
   \<and> contentHeight
       (run exact 1000 [Frame 1000, Measure (Some \<lparr> clientHeight = 200, scrollHeight = 200 \<rparr>)]
          (mount (Some example_element) 1000))
       \<le> containerHeight
       (run exact 1000 [Frame 1000, Measure (Some \<lparr> clientHeight = 200, scrollHeight = 200 \<rparr>)]
          (mount (Some example_element) 1000))
   \<and> step exact 1000 (Frame 1060)
       (run exact 1000 [Frame 1000, Measure (Some \<lparr> clientHeight = 200, scrollHeight = 200 \<rparr>)]
          (mount (Some example_element) 1000))
     = run exact 1000 [Frame 1000, Measure (Some \<lparr> clientHeight = 200, scrollHeight = 200 \<rparr>)]
          (mount (Some example_element) 1000)
   \<and> monotone_rounding exact \<and> (0::real) \<le> 1000
   \<and> sorted (timestamps [Frame 1000, Frame 1060])
   \<and> 0 \<le> scrollPosition
       (run exact 1000 [Frame 1000, Frame 1060] (mount (Some example_element) 1000))
   \<and> sorted (timestamps ([Frame 1000, Frame 1060] @ [Frame 1120]))
   \<and> scrollPosition (run exact 1000 [Frame 1000, Frame 1060] (mount (Some example_element) 1000))
       < contentHeight
           (run exact 1000 [Frame 1000, Frame 1060] (mount (Some example_element) 1000))
   \<and> scrollPosition (run exact 1000 [Frame 1000, Frame 1060] (mount (Some example_element) 1000))
       \<le> scrollPosition
           (step exact 1000 (Frame 1120)
              (run exact 1000 [Frame 1000, Frame 1060] (mount (Some example_element) 1000)))"
  using
    ticker_offset_per_frame [OF refl,
      where ar = exact and speed = 1000 and evs = "[Frame 1000, Frame 1060]"
        and m = "Some example_element" and ts = 1120 and ch = 100
        and t = "run exact 1000 [Frame 1000, Frame 1060] (mount (Some example_element) 1000)"]
    ticker_offset_per_frame [OF refl,
      where ar = exact and speed = 1000 and evs = "[Frame 1000, Frame 1060, Frame 1120]"
        and m = "Some example_element" and ts = 1180 and ch = 100
        and t = "mount (Some example_element) 1000"]
    ticker_offset_per_frame [OF refl,
      where ar = exact and speed = 1000
        and evs = "[Frame 1000, Measure (Some \<lparr> clientHeight = 200, scrollHeight = 200 \<rparr>)]"
        and m = "Some example_element" and ts = 1060 and ch = 100
        and t = "mount (Some example_element) 1000"]
    exact_monotone_rounding
  by (simp add: ticker_defs elapsed_def)

text \<open>
  Claim C1 as stated asks that every reachable offset is below the content extent, and
  that a new offset at or above it wraps to 0 on the same frame. With a container of 50, a
  content of 100 and a speed of 1000, the frames at 1000, 1060 and 1120 ms bring the offset
  to 0, 60 and 120: the third frame leaves it above the content extent. Every number of
  this run is an integer that double precision arithmetic computes without rounding.
\<close>

theorem offset_below_content_extent_counterexample:
  "scrollPosition
     (run exact 1000 [Frame 1000, Frame 1060, Frame 1120]
        (mount (Some \<lparr> clientHeight = 50, scrollHeight = 100 \<rparr>) 1000)) = 120
   \<and> contentHeight
     (run exact 1000 [Frame 1000, Frame 1060, Frame 1120]
        (mount (Some \<lparr> clientHeight = 50, scrollHeight = 100 \<rparr>) 1000)) = 100
   \<and> \<not> scrollPosition
     (run exact 1000 [Frame 1000, Frame 1060, Frame 1120]
        (mount (Some \<lparr> clientHeight = 50, scrollHeight = 100 \<rparr>) 1000))
       < contentHeight
     (run exact 1000 [Frame 1000, Frame 1060, Frame 1120]
        (mount (Some \<lparr> clientHeight = 50, scrollHeight = 100 \<rparr>) 1000))"
  by (simp add: ticker_defs)

subsection \<open>Content that fits\<close>

text \<open>
  Claim C6, as amended. In every state reached from mounting in which the content extent
  is at most the container extent, no frame callback is scheduled, and frames change
  nothing: the offset keeps the value it has. That value is 0 when the content has fitted
  at mounting and at every measurement since.
\<close>

theorem ticker_idle_when_content_fits:
  assumes "T = run ar speed evs (mount m speed)"
  shows "(contentHeight T \<le> containerHeight T
      \<longrightarrow> frameCallbacks T = [] \<and> run ar speed (map Frame tss) T = T)
   \<and> ((\<forall>e \<in> set (Measure m # evs). fits e)
      \<longrightarrow> contentHeight T \<le> containerHeight T \<and> scrollPosition T = 0)"
proof (intro conjI impI)
  have c: "consistent speed T"
    unfolding assms by (rule consistent_reachable)
  assume fit: "contentHeight T \<le> containerHeight T"
  with c show "frameCallbacks T = []" by (simp add: consistent_def)
  from c fit show "run ar speed (map Frame tss) T = T" by (rule idle_frames)
next
  assume a: "\<forall>e \<in> set (Measure m # evs). fits e"
  have m: "contentHeight (mount m speed) \<le> containerHeight (mount m speed)"
    using a by (cases m) (simp_all add: mount_heights)
  have "scrollPosition (run ar speed evs (mount m speed)) = scrollPosition (mount m speed)
      \<and> contentHeight (run ar speed evs (mount m speed))
          \<le> containerHeight (run ar speed evs (mount m speed))"
    using consistent_mount m a by (intro fitting_run) simp_all
  then show "contentHeight T \<le> containerHeight T" "scrollPosition T = 0"
    by (simp_all add: assms mount_fresh)
qed

theorem ticker_idle_when_content_fits_witness:
  "contentHeight
     (run exact 1000 [Frame 1000, Frame 1060, Measure (Some \<lparr> clientHeight = 200, scrollHeight = 200 \<rparr>)]
        (mount (Some example_element) 1000))
     \<le> containerHeight
     (run exact 1000 [Frame 1000, Frame 1060, Measure (Some \<lparr> clientHeight = 200, scrollHeight = 200 \<rparr>)]
        (mount (Some example_element) 1000))
   \<and> frameCallbacks
     (run exact 1000 [Frame 1000, Frame 1060, Measure (Some \<lparr> clientHeight = 200, scrollHeight = 200 \<rparr>)]
        (mount (Some example_element) 1000)) = []
   \<and> run exact 1000 (map Frame [1120, 1180])
     (run exact 1000 [Frame 1000, Frame 1060, Measure (Some \<lparr> clientHeight = 200, scrollHeight = 200 \<rparr>)]
        (mount (Some example_element) 1000))
     = run exact 1000 [Frame 1000, Frame 1060, Measure (Some \<lparr> clientHeight = 200, scrollHeight = 200 \<rparr>)]
        (mount (Some example_element) 1000)
   \<and> fits (Measure (Some \<lparr> clientHeight = 80, scrollHeight = 80 \<rparr>))
   \<and> fits (Frame 1000)
   \<and> fits (Measure (Some \<lparr> clientHeight = 90, scrollHeight = 90 \<rparr>))
   \<and> scrollPosition
     (run exact 1000 [Frame 1000, Measure (Some \<lparr> clientHeight = 90, scrollHeight = 90 \<rparr>)]
        (mount (Some \<lparr> clientHeight = 80, scrollHeight = 80 \<rparr>) 1000)) = 0"
  using
    ticker_idle_when_content_fits [OF refl, of exact 1000
      "[Frame 1000, Frame 1060, Measure (Some \<lparr> clientHeight = 200, scrollHeight = 200 \<rparr>)]"
      "Some example_element" "[1120, 1180]"]
    ticker_idle_when_content_fits [OF refl, of exact 1000
      "[Frame 1000, Measure (Some \<lparr> clientHeight = 90, scrollHeight = 90 \<rparr>)]"
      "Some \<lparr> clientHeight = 80, scrollHeight = 80 \<rparr>" "[]"]
  by (simp add: ticker_defs)

text \<open>
  Claim C6 as stated asks for the offset 0 in every state whose content fits. After the
  frames at 1000 and 1060 ms of the run above the offset is 60; when the container then
  grows to 200 and the content fits, the animation stops and the offset stays 60.
\<close>

theorem offset_zero_when_content_fits_counterexample:
  "contentHeight
     (run exact 1000 [Frame 1000, Frame 1060, Measure (Some \<lparr> clientHeight = 200, scrollHeight = 200 \<rparr>),
                Frame 1120]
        (mount (Some \<lparr> clientHeight = 50, scrollHeight = 100 \<rparr>) 1000))
     \<le> containerHeight
     (run exact 1000 [Frame 1000, Frame 1060, Measure (Some \<lparr> clientHeight = 200, scrollHeight = 200 \<rparr>),
                Frame 1120]
        (mount (Some \<lparr> clientHeight = 50, scrollHeight = 100 \<rparr>) 1000))
   \<and> scrollPosition
     (run exact 1000 [Frame 1000, Frame 1060, Measure (Some \<lparr> clientHeight = 200, scrollHeight = 200 \<rparr>),
                Frame 1120]
        (mount (Some \<lparr> clientHeight = 50, scrollHeight = 100 \<rparr>) 1000)) = 60
   \<and> scrollPosition
     (run exact 1000 [Frame 1000, Frame 1060, Measure (Some \<lparr> clientHeight = 200, scrollHeight = 200 \<rparr>),
                Frame 1120]
        (mount (Some \<lparr> clientHeight = 50, scrollHeight = 100 \<rparr>) 1000)) \<noteq> 0"
  by (simp add: ticker_defs)

subsection \<open>Measuring again\<close>

text \<open>
  Claim C7, as amended. A new measurement, in any state reached from mounting, leaves the
  scroll offset and the last-frame timestamp as they are. When it changes an extent, the
  frame callback in flight is cancelled and the need for the animation is decided again:
  no callback when the content now fits, one new callback otherwise. The first frame after
  the measurement therefore advances from the offset kept, with the time elapsed since the
  timestamp kept.
\<close>

theorem remeasure_keeps_offset_and_time:
  assumes "T = run ar speed evs (mount m speed)" and "T' = step ar speed (Measure m') T"
  shows "scrollPosition T' = scrollPosition T \<and> lastTimeRef T' = lastTimeRef T
   \<and> (\<not> (contentHeight T' = contentHeight T \<and> containerHeight T' = containerHeight T)
      \<longrightarrow> frameCallbacks T' =
            (if contentHeight T' \<le> containerHeight T' then []
             else [\<lparr> handle = nextHandle T, cb_speed = speed,
                     cb_contentHeight = contentHeight T' \<rparr>])
          \<and> set (frameCallbacks T) \<inter> set (frameCallbacks T') = {})
   \<and> scrollPosition (step ar speed (Frame ts) T') =
       (if contentHeight T' \<le> containerHeight T' then scrollPosition T
        else if contentHeight T' \<le> scrollPosition T then 0
        else fadd ar (scrollPosition T) (fmul ar (fdiv ar speed 1000) (elapsed ar ts T)))"
proof -
  have c: "consistent speed T"
    unfolding assms by (rule consistent_reachable)
  then have c': "consistent speed T'"
    unfolding assms(2) by (rule consistent_step)
  have keep: "scrollPosition T' = scrollPosition T" "lastTimeRef T' = lastTimeRef T"
    by (simp_all add: assms(2) step_Measure_keeps)
  have el: "elapsed ar ts T' = elapsed ar ts T"
    by (simp add: elapsed_def keep)
  have restart: "frameCallbacks T' =
            (if contentHeight T' \<le> containerHeight T' then []
             else [\<lparr> handle = nextHandle T, cb_speed = speed,
                     cb_contentHeight = contentHeight T' \<rparr>])
          \<and> set (frameCallbacks T) \<inter> set (frameCallbacks T') = {}"
    if ch: "\<not> (contentHeight T' = contentHeight T \<and> containerHeight T' = containerHeight T)"
  proof -
    have f: "frameCallbacks T' =
            (if contentHeight T' \<le> containerHeight T' then []
             else [\<lparr> handle = nextHandle T, cb_speed = speed,
                     cb_contentHeight = contentHeight T' \<rparr>])"
      using step_Measure_restart [OF c, where m = m' and ar = ar] ch unfolding assms(2)
      by simp
    have "x \<notin> set (frameCallbacks T')" if old: "x \<in> set (frameCallbacks T)" for x
    proof
      assume "x \<in> set (frameCallbacks T')"
      then have "handle x = nextHandle T"
        by (auto simp add: f split: if_splits)
      with consistent_handles [OF c old] show False by simp
    qed
    then have "set (frameCallbacks T) \<inter> set (frameCallbacks T') = {}"
      by blast
    with f show ?thesis by simp
  qed
  have fr: "scrollPosition (step ar speed (Frame ts) T') =
       (if contentHeight T' \<le> containerHeight T' then scrollPosition T
        else if contentHeight T' \<le> scrollPosition T then 0
        else fadd ar (scrollPosition T) (fmul ar (fdiv ar speed 1000) (elapsed ar ts T)))"
    by (simp add: step_Frame_reachable [OF c'] keep el)
  from keep restart fr show ?thesis by blast
qed

theorem remeasure_keeps_offset_and_time_witness:
  "scrollPosition
     (step exact 1000 (Measure (Some \<lparr> clientHeight = 50, scrollHeight = 300 \<rparr>))
        (run exact 1000 [Frame 1000, Frame 1060] (mount (Some example_element) 1000))) = 60
   \<and> lastTimeRef
     (step exact 1000 (Measure (Some \<lparr> clientHeight = 50, scrollHeight = 300 \<rparr>))
        (run exact 1000 [Frame 1000, Frame 1060] (mount (Some example_element) 1000))) = Some 1060
   \<and> frameCallbacks
     (step exact 1000 (Measure (Some \<lparr> clientHeight = 50, scrollHeight = 300 \<rparr>))
        (run exact 1000 [Frame 1000, Frame 1060] (mount (Some example_element) 1000)))
     = [\<lparr> handle = 4, cb_speed = 1000, cb_contentHeight = 300 \<rparr>]
   \<and> frameCallbacks (run exact 1000 [Frame 1000, Frame 1060] (mount (Some example_element) 1000))
     = [\<lparr> handle = 3, cb_speed = 1000, cb_contentHeight = 100 \<rparr>]
   \<and> scrollPosition
     (step exact 1000 (Frame 1160)
        (step exact 1000 (Measure (Some \<lparr> clientHeight = 50, scrollHeight = 300 \<rparr>))
           (run exact 1000 [Frame 1000, Frame 1060] (mount (Some example_element) 1000)))) = 160"
  using
    remeasure_keeps_offset_and_time [OF refl refl, of exact 1000
      "Some \<lparr> clientHeight = 50, scrollHeight = 300 \<rparr>"
      "[Frame 1000, Frame 1060]" "Some example_element" 1160]
  by (simp add: ticker_defs elapsed_def)

text \<open>
  Claim C7 as stated asks for offset 0 and no time reference after an extent has changed.
  After the frames at 1000 and 1060 ms the content extent changes from 100 to 300: the
  offset is still 60, the time reference is still 1060, and the frame at 1160 ms advances by
  the 100 ms since then, to 160.
\<close>

theorem restart_resets_offset_counterexample:
  "scrollPosition
     (run exact 1000 [Frame 1000, Frame 1060, Measure (Some \<lparr> clientHeight = 50, scrollHeight = 300 \<rparr>)]
        (mount (Some \<lparr> clientHeight = 50, scrollHeight = 100 \<rparr>) 1000)) = 60
   \<and> lastTimeRef
     (run exact 1000 [Frame 1000, Frame 1060, Measure (Some \<lparr> clientHeight = 50, scrollHeight = 300 \<rparr>)]
        (mount (Some \<lparr> clientHeight = 50, scrollHeight = 100 \<rparr>) 1000)) = Some 1060
   \<and> scrollPosition
     (run exact 1000 [Frame 1000, Frame 1060, Measure (Some \<lparr> clientHeight = 50, scrollHeight = 300 \<rparr>),
                Frame 1160]
        (mount (Some \<lparr> clientHeight = 50, scrollHeight = 100 \<rparr>) 1000)) = 160"
  by (simp add: ticker_defs)

subsection \<open>The transition of the rendered element\<close>

text \<open>
  Claim C8, as amended. The transition is disabled exactly when the rendered offset is 0,
  and is \<open>transform 100ms linear\<close> otherwise. Every frame that resets the offset by a wrap
  is therefore rendered without transition; so is every other render at offset 0, such as
  the first render and the first frame callback, whose elapsed time is 0.
\<close>

theorem transition_none_iff_offset_zero:
  "(transition (render t) = ''none'' \<longleftrightarrow> scrollPosition t = 0)
   \<and> (scrollPosition t \<noteq> 0 \<longrightarrow> transition (render t) = ''transform 100ms linear'')
   \<and> (ch \<le> scrollPosition t \<longrightarrow> transition (render (animate ar speed ch ts t)) = ''none'')"
  by (simp add: render_def animate_eq)

theorem transition_none_iff_offset_zero_witness:
  "transition (render (run exact 1000 [Frame 1000, Frame 1060] (mount (Some example_element) 1000)))
     = ''transform 100ms linear''
   \<and> transition (render (mount (Some example_element) 1000)) = ''none''
   \<and> (100::real) \<le> scrollPosition
       (run exact 1000 [Frame 1000, Frame 1060, Frame 1120] (mount (Some example_element) 1000))
   \<and> transition
       (render (animate exact 1000 100 1180
          (run exact 1000 [Frame 1000, Frame 1060, Frame 1120] (mount (Some example_element) 1000))))
     = ''none''"
  using
    transition_none_iff_offset_zero
      [of "run exact 1000 [Frame 1000, Frame 1060] (mount (Some example_element) 1000)"]
    transition_none_iff_offset_zero [of "mount (Some example_element) 1000"]
    transition_none_iff_offset_zero
      [where t = "run exact 1000 [Frame 1000, Frame 1060, Frame 1120]
                    (mount (Some example_element) 1000)"
         and ch = 100 and speed = 1000 and ts = 1180]
  by (simp add: ticker_defs)

text \<open>
  Claim C8 as stated asks for a transition on every frame that is not a wrap. The first
  frame after mounting runs the scheduled callback from offset 0, below the content extent
  100, so it is no wrap; its elapsed time is 0, the offset stays 0 and the transition is
  disabled.
\<close>

theorem transition_only_on_wrap_counterexample:
  "transition
     (render (run exact 1000 [Frame 1000] (mount (Some \<lparr> clientHeight = 50, scrollHeight = 100 \<rparr>) 1000)))
     = ''none''
   \<and> frameCallbacks (mount (Some \<lparr> clientHeight = 50, scrollHeight = 100 \<rparr>) 1000)
     = [\<lparr> handle = 1, cb_speed = 1000, cb_contentHeight = 100 \<rparr>]
   \<and> \<not> 100 \<le> scrollPosition (mount (Some \<lparr> clientHeight = 50, scrollHeight = 100 \<rparr>) 1000)"
  by (simp add: ticker_defs render_def)

end
